theory Spec2Isabelle
  imports Main "HOL-Library.AList"
begin

section \<open>Errors raised by the modelled Python code\<close>

datatype py_error = UnicodeEncodeError | KeyError | TypeError | AttributeError

section \<open>Decoded JSON\<close>

text \<open>
  Decoded JSON, as \<open>json.loads\<close> produces it (numbers are integers here; floating point
  numbers play no part in what follows).  \<open>JNull\<close> is Python's \<open>None\<close>.
\<close>

datatype json = JNull | JBool bool | JInt int | JStr string | JList "json list"
  | JObject "(string \<times> json) list"

section \<open>Text, slicing and the UTF-16 codec\<close>

text \<open>
  A Python \<open>str\<close> is a sequence of code points \<open>0 .. 0x10FFFF\<close>; \<open>len\<close> and slicing
  count code points.  A code point is modelled as a natural number, a text as a list of
  them.  Positions are Python integers (\<open>int\<close>), which may be negative or beyond the end.
\<close>

type_synonym codepoint = nat
type_synonym str = "codepoint list"

definition is_surrogate :: "codepoint \<Rightarrow> bool" where
  "is_surrogate c = (0xD800 \<le> c \<and> c \<le> 0xDFFF)"

definition is_scalar_value :: "codepoint \<Rightarrow> bool" where
  "is_scalar_value c = (c \<le> 0x10FFFF \<and> \<not> is_surrogate c)"

definition in_bmp :: "codepoint \<Rightarrow> bool" where
  "in_bmp c = (c < 0x10000)"

text \<open>
  \<open>text[lo:hi]\<close>: a negative bound counts from the end, and every bound is clamped into
  \<open>0 .. len(text)\<close>; slicing never raises.
\<close>

definition slice_index :: "nat \<Rightarrow> int \<Rightarrow> nat" where
  "slice_index n i = (if i < 0 then nat (max (i + int n) 0) else nat (min i (int n)))"

definition py_slice :: "'a list \<Rightarrow> int \<Rightarrow> int \<Rightarrow> 'a list" where
  "py_slice xs lo hi =
     drop (slice_index (length xs) lo) (take (slice_index (length xs) hi) xs)"

text \<open>
  \<open>str.encode("utf-16-le")\<close> with the default (strict) error handler: a code point of the
  Basic Multilingual Plane gives one 16-bit unit (two bytes, low byte first), a code point
  beyond it a surrogate pair (four bytes), and a lone surrogate code point raises
  \<open>UnicodeEncodeError\<close>.  Bytes are numbers below 256.
\<close>

definition unit_bytes :: "nat \<Rightarrow> nat list" where
  "unit_bytes u = [u mod 256, u div 256]"

definition encode_codepoint :: "codepoint \<Rightarrow> py_error + nat list" where
  "encode_codepoint c =
     (if is_surrogate c then Inl UnicodeEncodeError
      else if c < 0x10000 then Inr (unit_bytes c)
      else Inr (unit_bytes (0xD800 + (c - 0x10000) div 1024)
              @ unit_bytes (0xDC00 + (c - 0x10000) mod 1024)))"

fun encode_utf_16_le :: "str \<Rightarrow> py_error + nat list" where
  "encode_utf_16_le [] = Inr []"
| "encode_utf_16_le (c # cs) =
     (case encode_codepoint c of
        Inl e \<Rightarrow> Inl e
      | Inr bs \<Rightarrow> (case encode_utf_16_le cs of Inl e \<Rightarrow> Inl e | Inr rest \<Rightarrow> Inr (bs @ rest)))"

section \<open>MessageEntity\<close>

text \<open>
  The value of an attribute or of an entry of \<open>api_kwargs\<close>: decoded JSON (\<open>None\<close> is
  \<open>JNull\<close>) or a \<open>User\<close> object.  The class \<open>User\<close> is not part of the sources at hand, so
  the type of its objects is a parameter.
\<close>

datatype 'u attr = Json json | UserObj 'u

abbreviation PyNone :: "'u attr" where
  "PyNone \<equiv> Json JNull"

text \<open>
  The attributes of a \<open>MessageEntity\<close>: those of its \<open>__slots__\<close> and, from the base class
  \<open>TelegramObject\<close>, \<open>api_kwargs\<close>.  The type is a string (a member of
  \<open>MessageEntityType\<close> is a string as well), offset and length are integers, and the four
  optional attributes hold any value, \<open>None\<close> by default.  The private attributes of the
  base class (\<open>_id_attrs\<close>, \<open>_frozen\<close>, \<open>_bot\<close>) are not part of the record.  \<open>type\<close>,
  \<open>length\<close> and \<open>api_kwargs\<close> carry a suffix.
\<close>

record 'u MessageEntity =
  type_me :: string
  offset :: int
  length_me :: int
  url :: "'u attr"
  user :: "'u attr"
  language :: "'u attr"
  custom_emoji_id :: "'u attr"
  api_kwargs_me :: "(string \<times> 'u attr) list"

text \<open>
  \<open>MessageEntity.__init__\<close>.  Modelled from the spec: the base class keeps the given
  \<open>api_kwargs\<close> as they are, an empty dictionary when there are none, and the enum-coercion
  helper leaves the value of a string unchanged.
\<close>

definition MessageEntity_init ::
  "string \<Rightarrow> int \<Rightarrow> int \<Rightarrow> 'u attr \<Rightarrow> 'u attr \<Rightarrow> 'u attr \<Rightarrow> 'u attr
     \<Rightarrow> (string \<times> 'u attr) list option \<Rightarrow> 'u MessageEntity" where
  "MessageEntity_init t off len u usr lang emoji kwargs =
     \<lparr>type_me = t, offset = off, length_me = len, url = u, user = usr, language = lang,
      custom_emoji_id = emoji,
      api_kwargs_me = (case kwargs of None \<Rightarrow> [] | Some kw \<Rightarrow> kw)\<rparr>"

subsection \<open>copy.copy\<close>

text \<open>
  Modelled from the spec: the shallow copy of a \<open>TelegramObject\<close>, whose state protocol
  (\<open>__getstate__\<close>, \<open>__setstate__\<close>, \<open>_apply_api_kwargs\<close>) is not part of the sources at hand.
  \<open>copy.copy\<close> builds a new object from the state of the old one: every attribute is set to
  the value it has on the original, and then the entries of \<open>api_kwargs\<close> are applied, in
  order: an entry named like an attribute of the new object whose value is \<open>None\<close> is
  moved from \<open>api_kwargs\<close> to that attribute.  The type, the offset and the length are a
  string and integers, never \<open>None\<close>.  The attribute \<open>_bot\<close> of a new object is \<open>None\<close>,
  so an entry of that name leaves \<open>api_kwargs\<close> as well.
\<close>

definition attr_is_None :: "'u MessageEntity \<Rightarrow> string \<Rightarrow> bool" where
  "attr_is_None self key =
     (if key = ''url'' then url self = PyNone
      else if key = ''user'' then user self = PyNone
      else if key = ''language'' then language self = PyNone
      else if key = ''custom_emoji_id'' then custom_emoji_id self = PyNone
      else key = ''_bot'')"

definition setattr :: "'u MessageEntity \<Rightarrow> string \<Rightarrow> 'u attr \<Rightarrow> 'u MessageEntity" where
  "setattr self key v =
     (if key = ''url'' then self\<lparr>url := v\<rparr>
      else if key = ''user'' then self\<lparr>user := v\<rparr>
      else if key = ''language'' then self\<lparr>language := v\<rparr>
      else if key = ''custom_emoji_id'' then self\<lparr>custom_emoji_id := v\<rparr>
      else self)"

fun apply_api_kwarg ::
  "string \<Rightarrow> 'u MessageEntity \<times> (string \<times> 'u attr) list
     \<Rightarrow> 'u MessageEntity \<times> (string \<times> 'u attr) list" where
  "apply_api_kwarg key (self, api_kwargs) =
     (case map_of api_kwargs key of
        None \<Rightarrow> (self, api_kwargs)
      | Some v \<Rightarrow>
          if attr_is_None self key then (setattr self key v, AList.delete key api_kwargs)
          else (self, api_kwargs))"

definition apply_api_kwargs ::
  "'u MessageEntity \<Rightarrow> (string \<times> 'u attr) list \<Rightarrow> 'u MessageEntity \<times> (string \<times> 'u attr) list" where
  "apply_api_kwargs self api_kwargs = fold apply_api_kwarg (map fst api_kwargs) (self, api_kwargs)"

definition copy_copy :: "'u MessageEntity \<Rightarrow> 'u MessageEntity" where
  "copy_copy entity =
     (case apply_api_kwargs entity (api_kwargs_me entity) of
        (self, api_kwargs) \<Rightarrow> self\<lparr>api_kwargs_me := api_kwargs\<rparr>)"

subsection \<open>adjust_message_entities_to_utf_16\<close>

text \<open>
  \<open>sorted(itertools.chain(*((x.offset, x.offset + x.length) for x in entities)))\<close>
\<close>

definition positions_of :: "('u, 'm) MessageEntity_scheme list \<Rightarrow> int list" where
  "positions_of entities =
     sort (concat (map (\<lambda>x. [offset x, offset x + length_me x]) entities))"

text \<open>
  The first loop.  Its state is the accumulated length and the dictionary
  \<open>position_translation\<close>; \<open>last_position\<close> is \<open>positions[i - 1]\<close> for \<open>i > 0\<close> and \<open>0\<close>
  for the first position, so the loop carries the previous position along.
\<close>

fun translate_positions ::
  "str \<Rightarrow> int \<Rightarrow> int list \<Rightarrow> int \<Rightarrow> (int \<rightharpoonup> int) \<Rightarrow> py_error + (int \<rightharpoonup> int)" where
  "translate_positions txt last_position [] accumulated_length position_translation =
     Inr position_translation"
| "translate_positions txt last_position (position # rest) accumulated_length position_translation =
     (case encode_utf_16_le (py_slice txt last_position position) of
        Inl e \<Rightarrow> Inl e
      | Inr bs \<Rightarrow>
          (let accumulated_length' = accumulated_length + int (length bs) div 2
           in translate_positions txt position rest accumulated_length'
                (position_translation(position \<mapsto> accumulated_length'))))"

definition position_translation_of ::
  "str \<Rightarrow> ('u, 'm) MessageEntity_scheme list \<Rightarrow> py_error + (int \<rightharpoonup> int)" where
  "position_translation_of txt entities =
     translate_positions txt 0 (positions_of entities) 0 Map.empty"

text \<open>
  The second loop: a dictionary lookup of a missing key raises \<open>KeyError\<close>; the new entity
  is the shallow copy of the old one, with \<open>offset\<close> and \<open>length\<close> assigned.
\<close>

fun translate_entities ::
  "(int \<rightharpoonup> int) \<Rightarrow> 'u MessageEntity list \<Rightarrow> 'u MessageEntity list
     \<Rightarrow> py_error + 'u MessageEntity list" where
  "translate_entities position_translation [] out = Inr out"
| "translate_entities position_translation (entity # rest) out =
     (case position_translation (offset entity) of
        None \<Rightarrow> Inl KeyError
      | Some translated_positions \<Rightarrow>
          (case position_translation (offset entity + length_me entity) of
             None \<Rightarrow> Inl KeyError
           | Some translated_end \<Rightarrow>
               (let translated_length = translated_end - translated_positions;
                    new_entity = copy_copy entity;
                    new_entity = new_entity\<lparr>offset := translated_positions\<rparr>;
                    new_entity = new_entity\<lparr>length_me := translated_length\<rparr>
                in translate_entities position_translation rest (out @ [new_entity]))))"

definition adjust_message_entities_to_utf_16 ::
  "str \<Rightarrow> 'u MessageEntity list \<Rightarrow> py_error + 'u MessageEntity list" where
  "adjust_message_entities_to_utf_16 txt entities =
     (case position_translation_of txt entities of
        Inl e \<Rightarrow> Inl e
      | Inr position_translation \<Rightarrow> translate_entities position_translation entities [])"


subsection \<open>The same function on a store of objects\<close>









subsection \<open>What the specification measures\<close>

text \<open>
  The specification counts UTF-16 code units: a code point of the Basic Multilingual
  Plane is one unit, any other code point is two.  These definitions follow the
  specification's words, not the code; the theorems below compare the code with them.
\<close>

definition utf16_units :: "codepoint \<Rightarrow> nat" where
  "utf16_units c = (if c < 0x10000 then 1 else 2)"

definition utf16_length :: "str \<Rightarrow> nat" where
  "utf16_length cs = sum_list (map utf16_units cs)"

definition utf16_prefix_length :: "str \<Rightarrow> int \<Rightarrow> int" where
  "utf16_prefix_length txt p = int (utf16_length (take (nat p) txt))"

text \<open>A text of Unicode scalar values: no code point is a surrogate or beyond U+10FFFF.\<close>

definition scalar_text :: "str \<Rightarrow> bool" where
  "scalar_text txt = list_all is_scalar_value txt"

definition no_surrogates :: "str \<Rightarrow> bool" where
  "no_surrogates txt = list_all (\<lambda>c. \<not> is_surrogate c) txt"

text \<open>
  Spans whose boundaries lie within the text: offset and length are not negative and
  \<open>offset + length\<close> does not exceed the number of code points.
\<close>

definition spans_within :: "str \<Rightarrow> ('u, 'm) MessageEntity_scheme list \<Rightarrow> bool" where
  "spans_within txt entities =
     list_all (\<lambda>e. 0 \<le> offset e \<and> 0 \<le> length_me e \<and>
                    offset e + length_me e \<le> int (length txt)) entities"

definition bmp_text :: "str \<Rightarrow> bool" where
  "bmp_text txt = list_all in_bmp txt"

text \<open>
  Spans that start at or after the beginning of the text, with no bound on their end, and
  the property that some span ends beyond the text.
\<close>

definition spans_from_zero :: "('u, 'm) MessageEntity_scheme list \<Rightarrow> bool" where
  "spans_from_zero entities = list_all (\<lambda>e. 0 \<le> offset e \<and> 0 \<le> length_me e) entities"

definition some_span_beyond :: "str \<Rightarrow> ('u, 'm) MessageEntity_scheme list \<Rightarrow> bool" where
  "some_span_beyond txt entities =
     list_ex (\<lambda>e. int (length txt) < offset e + length_me e) entities"

text \<open>
  The copy of an entity, with the two boundaries replaced by their images under \<open>f\<close>.
\<close>

definition reposition :: "(int \<Rightarrow> int) \<Rightarrow> 'u MessageEntity \<Rightarrow> 'u MessageEntity" where
  "reposition f e =
     (copy_copy e)\<lparr>offset := f (offset e),
                    length_me := f (offset e + length_me e) - f (offset e)\<rparr>"


subsection \<open>Example data\<close>

text \<open>An entity with the required attributes only: \<open>MessageEntity(type, offset, length)\<close>.\<close>

definition span :: "string \<Rightarrow> int \<Rightarrow> int \<Rightarrow> unit MessageEntity" where
  "span t off len = MessageEntity_init t off len PyNone PyNone PyNone PyNone None"

text \<open>The text of the docstring example, as code points.\<close>

definition example_text :: str where
  "example_text = [131861, 32, 98, 111, 108, 100, 32, 119074, 32, 105, 116, 97, 108, 105, 99, 32,
     117, 110, 100, 101, 114, 108, 105, 110, 101, 100, 58, 32, 120537, 119586, 69709]"

section \<open>Paid media\<close>

subsection \<open>Values\<close>

text \<open>
  Modelled from the spec: the enumeration \<open>constants.PaidMediaType\<close>, which is not part of
  the sources at hand.  Its members are strings; the discriminator values are
  \<open>"preview"\<close>, \<open>"photo"\<close> and \<open>"video"\<close>.  \<open>PaidMedia.PREVIEW\<close>, \<open>PaidMedia.PHOTO\<close> and
  \<open>PaidMedia.VIDEO\<close> are these members.
\<close>

datatype PaidMediaType = PREVIEW | PHOTO | VIDEO

fun PaidMediaType_value :: "PaidMediaType \<Rightarrow> string" where
  "PaidMediaType_value PREVIEW = ''preview''"
| "PaidMediaType_value PHOTO = ''photo''"
| "PaidMediaType_value VIDEO = ''video''"

definition PaidMediaType_members :: "PaidMediaType list" where
  "PaidMediaType_members = [PREVIEW, PHOTO, VIDEO]"

definition PaidMediaType_of_value :: "string \<Rightarrow> PaidMediaType option" where
  "PaidMediaType_of_value s = find (\<lambda>m. PaidMediaType_value m = s) PaidMediaType_members"

text \<open>
  The values an attribute or a dictionary entry can hold: decoded JSON, a member of the
  enumeration, a \<open>PhotoSize\<close> object, a \<open>Video\<close> object, or a tuple.  The classes
  \<open>PhotoSize\<close> and \<open>Video\<close> are not part of the sources at hand: their objects are the
  type parameters \<open>'p\<close> and \<open>'v\<close>.  A \<open>JSONDict\<close> keeps its entries in insertion order.
\<close>

datatype ('p, 'v) pyval = J json | Member PaidMediaType | PhotoSizeObj 'p | VideoObj 'v
  | Tuple "('p, 'v) pyval list"

type_synonym ('p, 'v) JSONDict = "(string \<times> ('p, 'v) pyval) list"

text \<open>
  Python's rules for these values: lists and dictionaries cannot be hashed, a tuple can
  when its elements can; \<open>None\<close>, \<open>False\<close>, zero and empty containers are false.
\<close>

fun hashable :: "('p, 'v) pyval \<Rightarrow> bool" where
  "hashable (J (JList xs)) = False"
| "hashable (J (JObject kvs)) = False"
| "hashable (Tuple xs) = list_all hashable xs"
| "hashable v = True"

fun truthy :: "('p, 'v) pyval \<Rightarrow> bool" where
  "truthy (J JNull) = False"
| "truthy (J (JBool b)) = b"
| "truthy (J (JInt i)) = (i \<noteq> 0)"
| "truthy (J (JStr s)) = (s \<noteq> [])"
| "truthy (J (JList xs)) = (xs \<noteq> [])"
| "truthy (J (JObject kvs)) = (kvs \<noteq> [])"
| "truthy (Member m) = True"
| "truthy (PhotoSizeObj p) = True"
| "truthy (VideoObj v) = True"
| "truthy (Tuple xs) = (xs \<noteq> [])"

text \<open>
  The member of \<open>PaidMediaType\<close> that a value equals, if any: a member itself, or the
  string that is its value.  \<open>str_of\<close> is the string a value compares equal to.
\<close>

fun as_member :: "('p, 'v) pyval \<Rightarrow> PaidMediaType option" where
  "as_member (Member m) = Some m"
| "as_member (J (JStr s)) = PaidMediaType_of_value s"
| "as_member v = None"

fun str_of :: "('p, 'v) pyval \<Rightarrow> string option" where
  "str_of (Member m) = Some (PaidMediaType_value m)"
| "str_of (J (JStr s)) = Some s"
| "str_of v = None"

text \<open>
  Modelled from the spec: the enum-coercion helper \<open>enum.get_member\<close>, which is not part of
  the sources at hand.  It maps a value to the known constant when there is one and falls
  back to the default otherwise.
\<close>

definition get_member :: "('p, 'v) pyval \<Rightarrow> ('p, 'v) pyval \<Rightarrow> ('p, 'v) pyval" where
  "get_member v dflt = (case as_member v of Some m \<Rightarrow> Member m | None \<Rightarrow> dflt)"

text \<open>
  Modelled from the spec: the helper \<open>parse_sequence_arg\<close>, which is not part of the sources
  at hand.  It converts any finite iterable into a tuple and defaults to the empty tuple
  when the input is null; a value that is neither false nor iterable raises \<open>TypeError\<close>.
\<close>

fun parse_sequence_arg :: "('p, 'v) pyval \<Rightarrow> py_error + ('p, 'v) pyval list" where
  "parse_sequence_arg (Tuple xs) = Inr xs"
| "parse_sequence_arg (J (JList xs)) = Inr (map J xs)"
| "parse_sequence_arg (J (JStr s)) = Inr (map (\<lambda>c. J (JStr [c])) s)"
| "parse_sequence_arg (J (JObject kvs)) = Inr (map (\<lambda>kv. J (JStr (fst kv))) kvs)"
| "parse_sequence_arg (Member m) = Inr (map (\<lambda>c. J (JStr [c])) (PaidMediaType_value m))"
| "parse_sequence_arg v = (if truthy v then Inl TypeError else Inr [])"

subsection \<open>Classes\<close>

text \<open>
  Each class is a record that extends the record of its base class.  \<open>TelegramObject\<close> is
  not part of the sources at hand; of its state, \<open>api_kwargs\<close> and \<open>_id_attrs\<close> are kept.
  Freezing only guards attribute assignment and has no counterpart here: a record is a
  value.  \<open>type\<close> carries a suffix.
\<close>

record ('p, 'v) TelegramObject =
  api_kwargs :: "('p, 'v) JSONDict"
  id_attrs :: "('p, 'v) pyval list"

record ('p, 'v) PaidMedia = "('p, 'v) TelegramObject" +
  type_pm :: "('p, 'v) pyval"

record ('p, 'v) PaidMediaPreview = "('p, 'v) PaidMedia" +
  width :: "('p, 'v) pyval"
  height :: "('p, 'v) pyval"
  duration :: "('p, 'v) pyval"

record ('p, 'v) PaidMediaPhoto = "('p, 'v) PaidMedia" +
  photo :: "('p, 'v) pyval list"

record ('p, 'v) PaidMediaVideo = "('p, 'v) PaidMedia" +
  video :: "('p, 'v) pyval"

text \<open>
  Modelled from the spec: \<open>TelegramObject.__init__\<close>, which is not part of the sources at
  hand.  It keeps the given \<open>api_kwargs\<close>, an empty dictionary when there are none.
\<close>

definition TelegramObject_init :: "('p, 'v) JSONDict option \<Rightarrow> ('p, 'v) TelegramObject" where
  "TelegramObject_init kwargs =
     \<lparr>api_kwargs = (case kwargs of None \<Rightarrow> [] | Some kw \<Rightarrow> kw), id_attrs = []\<rparr>"

text \<open>The constructors of the four classes, each calling the constructor of its base class.\<close>

definition PaidMedia_init ::
  "('p, 'v) pyval \<Rightarrow> ('p, 'v) JSONDict option \<Rightarrow> ('p, 'v) PaidMedia" where
  "PaidMedia_init type kwargs =
     (let self = TelegramObject.extend (TelegramObject_init kwargs)
                   (PaidMedia.fields (get_member type type))
      in self\<lparr>id_attrs := [type_pm self]\<rparr>)"

definition PaidMediaPreview_init ::
  "('p, 'v) pyval \<Rightarrow> ('p, 'v) pyval \<Rightarrow> ('p, 'v) pyval \<Rightarrow> ('p, 'v) JSONDict option
     \<Rightarrow> ('p, 'v) PaidMediaPreview" where
  "PaidMediaPreview_init w h d kwargs =
     (let self = PaidMedia.extend (PaidMedia_init (Member PREVIEW) kwargs)
                   (PaidMediaPreview.fields w h d)
      in self\<lparr>id_attrs := [type_pm self, width self, height self, duration self]\<rparr>)"


definition PaidMediaPhoto_init ::
  "('p, 'v) pyval \<Rightarrow> ('p, 'v) JSONDict option \<Rightarrow> py_error + ('p, 'v) PaidMediaPhoto" where
  "PaidMediaPhoto_init p kwargs =
     (let super = PaidMedia_init (Member PHOTO) kwargs
      in case parse_sequence_arg p of
           Inl e \<Rightarrow> Inl e
         | Inr tup \<Rightarrow>
             (let self = PaidMedia.extend super (PaidMediaPhoto.fields tup)
              in Inr (self\<lparr>id_attrs := [type_pm self, Tuple (photo self)]\<rparr>)))"

definition PaidMediaVideo_init ::
  "('p, 'v) pyval \<Rightarrow> ('p, 'v) JSONDict option \<Rightarrow> ('p, 'v) PaidMediaVideo" where
  "PaidMediaVideo_init v kwargs =
     (let self = PaidMedia.extend (PaidMedia_init (Member VIDEO) kwargs)
                   (PaidMediaVideo.fields v)
      in self\<lparr>id_attrs := [type_pm self, video self]\<rparr>)"

text \<open>
  The classes as values (\<open>cls\<close> of a class method), and an instance of any of them.
\<close>

datatype paid_media_class = PaidMedia | PaidMediaPreview | PaidMediaPhoto | PaidMediaVideo

datatype ('p, 'v) paid_media =
    Obj_PaidMedia "('p, 'v) PaidMedia"
  | Obj_PaidMediaPreview "('p, 'v) PaidMediaPreview"
  | Obj_PaidMediaPhoto "('p, 'v) PaidMediaPhoto"
  | Obj_PaidMediaVideo "('p, 'v) PaidMediaVideo"

fun class_of :: "('p, 'v) paid_media \<Rightarrow> paid_media_class" where
  "class_of (Obj_PaidMedia x) = PaidMedia"
| "class_of (Obj_PaidMediaPreview x) = PaidMediaPreview"
| "class_of (Obj_PaidMediaPhoto x) = PaidMediaPhoto"
| "class_of (Obj_PaidMediaVideo x) = PaidMediaVideo"

fun type_of :: "('p, 'v) paid_media \<Rightarrow> ('p, 'v) pyval" where
  "type_of (Obj_PaidMedia x) = type_pm x"
| "type_of (Obj_PaidMediaPreview x) = type_pm x"
| "type_of (Obj_PaidMediaPhoto x) = type_pm x"
| "type_of (Obj_PaidMediaVideo x) = type_pm x"

fun id_attrs_of :: "('p, 'v) paid_media \<Rightarrow> ('p, 'v) pyval list" where
  "id_attrs_of (Obj_PaidMedia x) = id_attrs x"
| "id_attrs_of (Obj_PaidMediaPreview x) = id_attrs x"
| "id_attrs_of (Obj_PaidMediaPhoto x) = id_attrs x"
| "id_attrs_of (Obj_PaidMediaVideo x) = id_attrs x"

subsection \<open>Decoding\<close>

text \<open>
  Modelled from the spec: the JSON-decode hook of the base object,
  \<open>TelegramObject.de_json\<close>, which is not part of the sources at hand.  It returns null for a
  null mapping and otherwise constructs the class it is called on from the mapping: each
  entry named like a parameter of the constructor is passed as that argument, the other
  entries are kept in \<open>api_kwargs\<close>, an absent optional argument is \<open>None\<close>, and an absent
  required argument raises \<open>TypeError\<close>.  The hook passes the entries of the mapping as
  keyword arguments next to its own argument \<open>api_kwargs\<close>, which every constructor
  declares, so an entry named \<open>api_kwargs\<close> gives that keyword twice and raises
  \<open>TypeError\<close>.  The constructor takes the keywords in order and stops at the first one it
  rejects: when that is an entry named \<open>self\<close>, which collides with the instance under
  construction, the error is raised; when it is an entry that no parameter takes, the hook
  sorts the entries into arguments and \<open>api_kwargs\<close> and calls the constructor again.
\<close>

fun init_params :: "paid_media_class \<Rightarrow> string list" where
  "init_params PaidMedia = [''type'', ''api_kwargs'']"
| "init_params PaidMediaPreview = [''width'', ''height'', ''duration'', ''api_kwargs'']"
| "init_params PaidMediaPhoto = [''photo'', ''api_kwargs'']"
| "init_params PaidMediaVideo = [''video'', ''api_kwargs'']"

definition first_rejected :: "paid_media_class \<Rightarrow> ('p, 'v) JSONDict \<Rightarrow> string option" where
  "first_rejected cls d =
     find (\<lambda>k. k = ''self'' \<or> k \<notin> set (init_params cls)) (map fst d)"

definition repeated_keyword :: "paid_media_class \<Rightarrow> ('p, 'v) JSONDict \<Rightarrow> bool" where
  "repeated_keyword cls d =
     (''api_kwargs'' \<in> set (map fst d) \<or> first_rejected cls d = Some ''self'')"

definition unexpected_kwargs :: "paid_media_class \<Rightarrow> ('p, 'v) JSONDict \<Rightarrow> ('p, 'v) JSONDict" where
  "unexpected_kwargs cls d = filter (\<lambda>kv. fst kv \<notin> set (init_params cls)) d"

definition optional_arg :: "('p, 'v) JSONDict \<Rightarrow> string \<Rightarrow> ('p, 'v) pyval" where
  "optional_arg d k = (case map_of d k of None \<Rightarrow> J JNull | Some v \<Rightarrow> v)"

fun call_constructor ::
  "paid_media_class \<Rightarrow> ('p, 'v) JSONDict \<Rightarrow> py_error + ('p, 'v) paid_media" where
  "call_constructor PaidMedia d =
     (case map_of d ''type'' of
        None \<Rightarrow> Inl TypeError
      | Some t \<Rightarrow> Inr (Obj_PaidMedia (PaidMedia_init t (Some (unexpected_kwargs PaidMedia d)))))"
| "call_constructor PaidMediaPreview d =
     Inr (Obj_PaidMediaPreview
            (PaidMediaPreview_init (optional_arg d ''width'') (optional_arg d ''height'')
               (optional_arg d ''duration'') (Some (unexpected_kwargs PaidMediaPreview d))))"
| "call_constructor PaidMediaPhoto d =
     (case map_of d ''photo'' of
        None \<Rightarrow> Inl TypeError
      | Some p \<Rightarrow>
          (case PaidMediaPhoto_init p (Some (unexpected_kwargs PaidMediaPhoto d)) of
             Inl e \<Rightarrow> Inl e
           | Inr self \<Rightarrow> Inr (Obj_PaidMediaPhoto self)))"
| "call_constructor PaidMediaVideo d =
     (case map_of d ''video'' of
        None \<Rightarrow> Inl TypeError
      | Some v \<Rightarrow> Inr (Obj_PaidMediaVideo
                        (PaidMediaVideo_init v (Some (unexpected_kwargs PaidMediaVideo d)))))"

definition TelegramObject_de_json ::
  "paid_media_class \<Rightarrow> ('p, 'v) JSONDict option \<Rightarrow> py_error + ('p, 'v) paid_media option" where
  "TelegramObject_de_json cls data =
     (case data of
        None \<Rightarrow> Inr None
      | Some d \<Rightarrow>
          if repeated_keyword cls d then Inl TypeError
          else (case call_constructor cls d of Inl e \<Rightarrow> Inl e | Inr self \<Rightarrow> Inr (Some self)))"

text \<open>
  Modelled from the spec: the hook \<open>TelegramObject._parse_data\<close>, which is not part of the
  sources at hand.  It hands the decoder its own copy of the mapping, or null.
\<close>

definition parse_data :: "('p, 'v) JSONDict option \<Rightarrow> ('p, 'v) JSONDict option" where
  "parse_data data = (case data of None \<Rightarrow> None | Some d \<Rightarrow> Some d)"

text \<open>
  \<open>data.get("type") in _class_mapping\<close>.  The keys of \<open>_class_mapping\<close> are the three
  members of \<open>PaidMediaType\<close>, so the test yields the member that the value equals, if
  any; a value that cannot be hashed raises \<open>TypeError\<close>.
\<close>

definition in_class_mapping :: "('p, 'v) pyval option \<Rightarrow> py_error + PaidMediaType option" where
  "in_class_mapping key =
     (case key of
        None \<Rightarrow> Inr None
      | Some v \<Rightarrow> if hashable v then Inr (as_member v) else Inl TypeError)"

text \<open>
  The argument \<open>bot\<close> of the decoders is only handed on to the objects they create and is
  left out.  \<open>PhotoSize.de_list\<close> and \<open>Video.de_json\<close> belong to classes that are not part of the
  sources at hand; the decoders take them as parameters.  \<open>PaidMediaPreview\<close> inherits
  \<open>de_json\<close> from \<open>PaidMedia\<close>; \<open>PaidMediaPhoto\<close> and \<open>PaidMediaVideo\<close> override it and
  call the inherited one through \<open>super()\<close>.  \<open>_class_mapping[data.pop("type")]\<close> selects
  the class by the member, so the lookup is a case distinction on it.
\<close>

type_synonym ('p, 'v) de_list = "('p, 'v) pyval option \<Rightarrow> py_error + 'p list"
type_synonym ('p, 'v) de_json = "('p, 'v) pyval option \<Rightarrow> py_error + 'v option"

function PaidMedia_de_json ::
    "('p, 'v) de_list \<Rightarrow> ('p, 'v) de_json \<Rightarrow> paid_media_class \<Rightarrow> ('p, 'v) JSONDict option
       \<Rightarrow> py_error + ('p, 'v) paid_media option"
  and PaidMediaPhoto_de_json ::
    "('p, 'v) de_list \<Rightarrow> ('p, 'v) de_json \<Rightarrow> ('p, 'v) JSONDict option
       \<Rightarrow> py_error + ('p, 'v) paid_media option"
  and PaidMediaVideo_de_json ::
    "('p, 'v) de_list \<Rightarrow> ('p, 'v) de_json \<Rightarrow> ('p, 'v) JSONDict option
       \<Rightarrow> py_error + ('p, 'v) paid_media option"
where
  "PaidMedia_de_json PhotoSize_de_list Video_de_json cls data =
     (case parse_data data of
        None \<Rightarrow> Inr None
      | Some d \<Rightarrow>
          if d = [] \<and> cls = PaidMedia then Inr None
          else if cls = PaidMedia then
            (case in_class_mapping (map_of d ''type'') of
               Inl e \<Rightarrow> Inl e
             | Inr (Some m) \<Rightarrow>
                 (let d' = AList.delete ''type'' d
                  in case m of
                       PREVIEW \<Rightarrow>
                         PaidMedia_de_json PhotoSize_de_list Video_de_json PaidMediaPreview (Some d')
                     | PHOTO \<Rightarrow> PaidMediaPhoto_de_json PhotoSize_de_list Video_de_json (Some d')
                     | VIDEO \<Rightarrow> PaidMediaVideo_de_json PhotoSize_de_list Video_de_json (Some d'))
             | Inr None \<Rightarrow> TelegramObject_de_json cls (Some d))
          else TelegramObject_de_json cls (Some d))"
| "PaidMediaPhoto_de_json PhotoSize_de_list Video_de_json data =
     (case parse_data data of
        None \<Rightarrow> Inr None
      | Some d \<Rightarrow>
          if d = [] then Inr None
          else (case PhotoSize_de_list (map_of d ''photo'') of
                  Inl e \<Rightarrow> Inl e
                | Inr sizes \<Rightarrow>
                    PaidMedia_de_json PhotoSize_de_list Video_de_json PaidMediaPhoto
                      (Some (AList.update ''photo'' (Tuple (map PhotoSizeObj sizes)) d))))"
| "PaidMediaVideo_de_json PhotoSize_de_list Video_de_json data =
     (case parse_data data of
        None \<Rightarrow> Inr None
      | Some d \<Rightarrow>
          if d = [] then Inr None
          else (case Video_de_json (map_of d ''video'') of
                  Inl e \<Rightarrow> Inl e
                | Inr v \<Rightarrow>
                    PaidMedia_de_json PhotoSize_de_list Video_de_json PaidMediaVideo
                      (Some (AList.update ''video''
                               (case v of None \<Rightarrow> J JNull | Some x \<Rightarrow> VideoObj x) d))))"
  by pat_completeness auto
termination
  by (relation "measure (\<lambda>x. case x of
          Inl (_, _, cls, _) \<Rightarrow> if cls = PaidMedia then 2 else 0
        | Inr _ \<Rightarrow> 1)") auto

text \<open>
  Modelled from the spec: equality of objects, \<open>TelegramObject.__eq__\<close>, which is not part
  of the sources at hand.  Two objects are compared by the tuples \<open>_id_attrs\<close> when the
  other object is an instance of the class of this one; otherwise the method leaves the
  comparison to Python (\<open>NotImplemented\<close>).  Tuples are equal when they have the same
  length and equal elements; the equality of the elements is the parameter \<open>eq\<close>.
\<close>

datatype eq_result = Eq bool | NotImplemented

definition isinstance :: "('p, 'v) paid_media \<Rightarrow> paid_media_class \<Rightarrow> bool" where
  "isinstance x c = (class_of x = c \<or> c = PaidMedia)"

definition TelegramObject_eq ::
  "(('p, 'v) pyval \<Rightarrow> ('p, 'v) pyval \<Rightarrow> bool) \<Rightarrow> ('p, 'v) paid_media \<Rightarrow> ('p, 'v) paid_media
     \<Rightarrow> eq_result" where
  "TelegramObject_eq eq self other =
     (if isinstance other (class_of self)
      then Eq (list_all2 eq (id_attrs_of self) (id_attrs_of other))
      else NotImplemented)"

text \<open>
  A mapping none of whose entries is named \<open>api_kwargs\<close> or \<open>self\<close>.
\<close>

definition plain_keys :: "('p, 'v) JSONDict \<Rightarrow> bool" where
  "plain_keys d = (''api_kwargs'' \<notin> set (map fst d) \<and> ''self'' \<notin> set (map fst d))"

text \<open>
  An instance of a concrete variant carries the discriminator of its class.
\<close>

fun variant_type_ok :: "('p, 'v) paid_media \<Rightarrow> bool" where
  "variant_type_ok (Obj_PaidMedia x) = True"
| "variant_type_ok (Obj_PaidMediaPreview x) = (str_of (type_pm x) = Some ''preview'')"
| "variant_type_ok (Obj_PaidMediaPhoto x) = (str_of (type_pm x) = Some ''photo'')"
| "variant_type_ok (Obj_PaidMediaVideo x) = (str_of (type_pm x) = Some ''video'')"

text \<open>
  Stand-ins for the two foreign decoders in the examples: a \<open>PhotoSize\<close> or \<open>Video\<close> is
  represented by the JSON it was decoded from.
\<close>

definition example_de_list :: "(json, json) de_list" where
  "example_de_list v = (case v of Some (J (JList xs)) \<Rightarrow> Inr xs | _ \<Rightarrow> Inr [])"

definition example_de_json :: "(json, json) de_json" where
  "example_de_json v = (case v of Some (J (JObject kvs)) \<Rightarrow> Inr (Some (JObject kvs)) | _ \<Rightarrow> Inr None)"

section \<open>The offset translator: auxiliary facts\<close>

subsection \<open>The shallow copy\<close>

lemma apply_api_kwarg_fixed [simp]:
  "type_me (fst (apply_api_kwarg k st)) = type_me (fst st)"
  "offset (fst (apply_api_kwarg k st)) = offset (fst st)"
  "length_me (fst (apply_api_kwarg k st)) = length_me (fst st)"
  by (cases st; simp add: setattr_def split: option.splits)+

lemma fold_apply_api_kwarg_fixed [simp]:
  "type_me (fst (fold apply_api_kwarg ks st)) = type_me (fst st)"
  "offset (fst (fold apply_api_kwarg ks st)) = offset (fst st)"
  "length_me (fst (fold apply_api_kwarg ks st)) = length_me (fst st)"
  by (induction ks arbitrary: st; simp)+

lemma copy_copy_fixed [simp]:
  "type_me (copy_copy e) = type_me e"
  "offset (copy_copy e) = offset e"
  "length_me (copy_copy e) = length_me e"
  by (simp_all add: copy_copy_def apply_api_kwargs_def split: prod.splits)
     (metis fold_apply_api_kwarg_fixed fst_conv)+

lemma copy_copy_no_api_kwargs: "api_kwargs_me e = [] \<Longrightarrow> copy_copy e = e"
  by (simp add: copy_copy_def apply_api_kwargs_def)







lemma reposition_fixed:
  assumes "f (offset e) = offset e" and "f (offset e + length_me e) = offset e + length_me e"
  shows "reposition f e = copy_copy e"
proof -
  have "(copy_copy e)\<lparr>offset := offset (copy_copy e), length_me := length_me (copy_copy e)\<rparr>
        = copy_copy e"
    by simp
  then show ?thesis
    using assms by (simp add: reposition_def)
qed


lemma utf16_length_simps [simp]:
  "utf16_length [] = 0"
  "utf16_length (c # cs) = utf16_units c + utf16_length cs"
  "utf16_length (xs @ ys) = utf16_length xs + utf16_length ys"
  by (simp_all add: utf16_length_def)

lemma encode_codepoint_length:
  "\<not> is_surrogate c \<Longrightarrow> \<exists>bs. encode_codepoint c = Inr bs \<and> length bs = 2 * utf16_units c"
  by (simp add: encode_codepoint_def unit_bytes_def utf16_units_def)

lemma encode_utf_16_le_length:
  "no_surrogates s \<Longrightarrow> \<exists>bs. encode_utf_16_le s = Inr bs \<and> length bs = 2 * utf16_length s"
proof (induction s)
  case Nil
  then show ?case by simp
next
  case (Cons c cs)
  from Cons.prems have c: "\<not> is_surrogate c" and cs: "no_surrogates cs"
    by (simp_all add: no_surrogates_def)
  from encode_codepoint_length [OF c] obtain b1
    where b1: "encode_codepoint c = Inr b1" "length b1 = 2 * utf16_units c" by blast
  from Cons.IH [OF cs] obtain b2
    where b2: "encode_utf_16_le cs = Inr b2" "length b2 = 2 * utf16_length cs" by blast
  show ?case using b1 b2 by simp
qed

lemma no_surrogates_py_slice: "no_surrogates txt \<Longrightarrow> no_surrogates (py_slice txt lo hi)"
  unfolding no_surrogates_def py_slice_def list_all_iff
  by (meson in_set_dropD in_set_takeD)

lemma py_slice_nonneg:
  "0 \<le> lo \<Longrightarrow> 0 \<le> hi \<Longrightarrow> py_slice xs lo hi = drop (nat lo) (take (nat hi) xs)"
  by (cases "nat hi \<le> length xs"; cases "nat lo \<le> length xs")
     (auto simp: py_slice_def slice_index_def min_def nat_le_iff)

lemma utf16_prefix_length_split:
  assumes "0 \<le> lo" "lo \<le> hi"
  shows "utf16_prefix_length txt hi =
         utf16_prefix_length txt lo + int (utf16_length (py_slice txt lo hi))"
proof -
  let ?ys = "take (nat hi) txt"
  have "take (nat lo) txt = take (nat lo) ?ys"
    using assms by (simp add: min_def)
  moreover have "?ys = take (nat lo) ?ys @ drop (nat lo) ?ys"
    by (rule append_take_drop_id [symmetric])
  ultimately have "utf16_length ?ys =
      utf16_length (take (nat lo) txt) + utf16_length (drop (nat lo) ?ys)"
    by (metis utf16_length_simps(3))
  then show ?thesis
    using assms by (simp add: utf16_prefix_length_def py_slice_nonneg)
qed



lemma translate_positions_prefix:
  assumes "no_surrogates txt" and "sorted ps" and "0 \<le> prev" and "\<forall>p \<in> set ps. prev \<le> p"
    and "acc = utf16_prefix_length txt prev"
  shows "translate_positions txt prev ps acc pt =
         Inr (\<lambda>k. if k \<in> set ps then Some (utf16_prefix_length txt k) else pt k)"
  using assms(2-5)
proof (induction ps arbitrary: prev acc pt)
  case Nil
  then show ?case by simp
next
  case (Cons p ps)
  from Cons.prems have prev_le: "prev \<le> p" and nonneg: "0 \<le> p"
    and sorted: "sorted ps" and above: "\<forall>q \<in> set ps. p \<le> q"
    by auto
  from encode_utf_16_le_length [OF no_surrogates_py_slice [OF assms(1)]]
  obtain bs where bs: "encode_utf_16_le (py_slice txt prev p) = Inr bs"
    and len: "length bs = 2 * utf16_length (py_slice txt prev p)" by blast
  have step: "acc + int (length bs) div 2 = utf16_prefix_length txt p"
    using utf16_prefix_length_split [OF \<open>0 \<le> prev\<close> prev_le, of "txt"] len \<open>acc = utf16_prefix_length txt prev\<close>
    by simp
  have "translate_positions txt prev (p # ps) acc pt =
        translate_positions txt p ps (utf16_prefix_length txt p)
          (pt(p \<mapsto> utf16_prefix_length txt p))"
    using bs step by (simp add: Let_def)
  also have "\<dots> = Inr (\<lambda>k. if k \<in> set ps then Some (utf16_prefix_length txt k)
                          else (pt(p \<mapsto> utf16_prefix_length txt p)) k)"
    by (rule Cons.IH [OF sorted nonneg above refl])
  also have "(\<lambda>k. if k \<in> set ps then Some (utf16_prefix_length txt k)
                   else (pt(p \<mapsto> utf16_prefix_length txt p)) k) =
             (\<lambda>k. if k \<in> set (p # ps) then Some (utf16_prefix_length txt k) else pt k)"
    by (rule ext) simp
  finally show ?case .
qed

lemma translate_entities_map:
  assumes "\<forall>e \<in> set es. pt (offset e) = Some (f (offset e)) \<and>
             pt (offset e + length_me e) = Some (f (offset e + length_me e))"
  shows "translate_entities pt es out = Inr (out @ map (reposition f) es)"
  using assms
  by (induction es arbitrary: out) (simp_all add: Let_def reposition_def)

lemma set_positions_of:
  "set (positions_of es) = (\<Union>e \<in> set es. {offset e, offset e + length_me e})"
  by (auto simp: positions_of_def)


lemma adjust_nonneg_positions:
  assumes "no_surrogates txt"
    and "\<forall>e \<in> set es. 0 \<le> offset e \<and> 0 \<le> offset e + length_me e"
  shows "position_translation_of txt es =
           Inr (\<lambda>k. if k \<in> set (positions_of es) then Some (utf16_prefix_length txt k) else None)"
    and "adjust_message_entities_to_utf_16 txt es = Inr (map (reposition (utf16_prefix_length txt)) es)"
proof -
  let ?pt = "\<lambda>k. if k \<in> set (positions_of es) then Some (utf16_prefix_length txt k) else None"
  have "\<forall>p \<in> set (positions_of es). 0 \<le> p"
    using assms(2) by (auto simp: set_positions_of)
  moreover have "sorted (positions_of es)"
    by (simp add: positions_of_def)
  ultimately show pt: "position_translation_of txt es = Inr ?pt"
    unfolding position_translation_of_def
    using translate_positions_prefix [OF assms(1), of "positions_of es" 0 0 Map.empty]
    by (simp add: utf16_prefix_length_def)
  have "\<forall>e \<in> set es. ?pt (offset e) = Some (utf16_prefix_length txt (offset e)) \<and>
          ?pt (offset e + length_me e) = Some (utf16_prefix_length txt (offset e + length_me e))"
    by (auto simp: set_positions_of)
  from translate_entities_map [OF this, of "[]"] pt
  show "adjust_message_entities_to_utf_16 txt es = Inr (map (reposition (utf16_prefix_length txt)) es)"
    by (simp add: adjust_message_entities_to_utf_16_def)
qed

lemma scalar_text_no_surrogates: "scalar_text txt \<Longrightarrow> no_surrogates txt"
  by (simp add: scalar_text_def no_surrogates_def list_all_iff is_scalar_value_def)

lemma utf16_length_ge: "length cs \<le> utf16_length cs"
  by (induction cs) (simp_all add: utf16_units_def)

lemma utf16_length_bmp: "\<forall>c \<in> set cs. in_bmp c \<Longrightarrow> utf16_length cs = length cs"
  by (induction cs) (simp_all add: utf16_units_def in_bmp_def)

lemma utf16_prefix_length_mono:
  "0 \<le> p \<Longrightarrow> p \<le> q \<Longrightarrow> utf16_prefix_length txt p \<le> utf16_prefix_length txt q"
  using utf16_prefix_length_split [of p q "txt"] by simp

lemma utf16_prefix_length_beyond:
  "int (length txt) \<le> p \<Longrightarrow> utf16_prefix_length txt p = int (utf16_length txt)"
  by (simp add: utf16_prefix_length_def)

lemma utf16_prefix_length_span:
  assumes "0 \<le> off" "0 \<le> len"
  shows "utf16_prefix_length txt (off + len) - utf16_prefix_length txt off =
         int (utf16_length (take (nat len) (drop (nat off) txt)))"
proof -
  have "py_slice txt off (off + len) = take (nat len) (drop (nat off) txt)"
    using assms by (simp add: py_slice_nonneg drop_take nat_add_distrib)
  with utf16_prefix_length_split [of off "off + len" "txt"] assms show ?thesis by simp
qed

lemma adjust_within:
  assumes "scalar_text txt" and "spans_within txt entities"
  shows "adjust_message_entities_to_utf_16 txt entities =
           Inr (map (reposition (utf16_prefix_length txt)) entities)"
proof -
  have "\<forall>e \<in> set entities. 0 \<le> offset e \<and> 0 \<le> offset e + length_me e"
    using assms(2) by (auto simp: spans_within_def list_all_iff)
  then show ?thesis
    by (rule adjust_nonneg_positions(2) [OF scalar_text_no_surrogates [OF assms(1)]])
qed

lemma utf16_prefix_length_bmp:
  assumes "bmp_text txt" and "0 \<le> p" and "p \<le> int (length txt)"
  shows "utf16_prefix_length txt p = p"
proof -
  have "\<forall>c \<in> set (take (nat p) txt). in_bmp c"
    using assms(1) by (auto simp: bmp_text_def list_all_iff dest: in_set_takeD)
  then show ?thesis
    using assms(2,3) by (simp add: utf16_prefix_length_def utf16_length_bmp)
qed

subsection \<open>The run on the store\<close>




lemmas eval_simps = adjust_message_entities_to_utf_16_def position_translation_of_def
  positions_of_def py_slice_def slice_index_def encode_codepoint_def is_surrogate_def
  unit_bytes_def Let_def span_def MessageEntity_init_def copy_copy_def apply_api_kwargs_def
  attr_is_None_def setattr_def

text \<open>
  A lone surrogate code point cannot be encoded: the function raises as soon as a slice
  that holds one is measured.
\<close>

lemma adjust_lone_surrogate_raises:
  "adjust_message_entities_to_utf_16 [0xD800] [span ''bold'' 0 1] = Inl UnicodeEncodeError"
  by (simp add: eval_simps)


section \<open>The offset translator: claims\<close>

text \<open>
  C1.  For a text of Unicode scalar values and spans whose boundaries lie within the text,
  \<open>adjust_message_entities_to_utf_16\<close> returns one span per input span; its offset is
  the number of UTF-16 code units of the prefix of the text up to the original offset, and
  its length is the number of UTF-16 code units of the text between \<open>offset\<close> and
  \<open>offset + length\<close>, which is the translated end minus the translated start.
\<close>

theorem adjust_translates_boundaries:
  assumes "scalar_text txt" and "spans_within txt entities"
  shows "\<exists>out. adjust_message_entities_to_utf_16 txt entities = Inr out \<and>
           length out = length entities \<and>
           (\<forall>i < length entities.
              offset (out ! i) = int (utf16_length (take (nat (offset (entities ! i))) txt)) \<and>
              length_me (out ! i) =
                int (utf16_length (take (nat (length_me (entities ! i)))
                                         (drop (nat (offset (entities ! i))) txt))) \<and>
              length_me (out ! i) =
                utf16_prefix_length txt (offset (entities ! i) + length_me (entities ! i))
                - utf16_prefix_length txt (offset (entities ! i)))"
proof -
  have eq: "adjust_message_entities_to_utf_16 txt entities =
            Inr (map (reposition (utf16_prefix_length txt)) entities)"
    by (rule adjust_within [OF assms])
  have inside: "0 \<le> offset (entities ! i) \<and> 0 \<le> length_me (entities ! i)"
    if "i < length entities" for i
    using that assms(2) by (auto simp: spans_within_def list_all_iff dest: nth_mem)
  have off: "offset (reposition (utf16_prefix_length txt) (entities ! i)) =
          int (utf16_length (take (nat (offset (entities ! i))) txt))" for i
    by (simp add: reposition_def utf16_prefix_length_def)
  have len: "length_me (reposition (utf16_prefix_length txt) (entities ! i)) =
          utf16_prefix_length txt (offset (entities ! i) + length_me (entities ! i))
          - utf16_prefix_length txt (offset (entities ! i))" for i
    by (simp add: reposition_def)
  have span: "utf16_prefix_length txt (offset (entities ! i) + length_me (entities ! i))
          - utf16_prefix_length txt (offset (entities ! i)) =
          int (utf16_length (take (nat (length_me (entities ! i)))
                                   (drop (nat (offset (entities ! i))) txt)))"
    if "i < length entities" for i
    using inside [OF that] by (simp add: utf16_prefix_length_span)
  show ?thesis
    unfolding eq by (rule exI [of _ "map (reposition (utf16_prefix_length txt)) entities"])
      (simp add: off len span)
qed

theorem adjust_translates_boundaries_witness:
  "scalar_text [0x1F600, 97, 98] \<and> spans_within [0x1F600, 97, 98] [span ''bold'' 1 2] \<and>
   adjust_message_entities_to_utf_16 [0x1F600, 97, 98] [span ''bold'' 1 2] =
     Inr [span ''bold'' 2 2]"
proof -
  have a: "scalar_text [0x1F600, 97, 98]"
    by (simp add: scalar_text_def is_scalar_value_def is_surrogate_def)
  have b: "spans_within [0x1F600, 97, 98] [span ''bold'' 1 2]"
    by (simp add: spans_within_def span_def MessageEntity_init_def)
  from adjust_translates_boundaries [OF a b] a b show ?thesis
    by (simp add: eval_simps)
qed

text \<open>
  C2.  The claim is that a span ending beyond the text makes the function raise.  It does
  not: slicing clamps a bound beyond the end, so the function returns.  What holds instead:
  for a text of Unicode scalar values and spans with non-negative offset and length, one
  of which ends beyond the text, the function returns one span per input span, and every
  span that ends beyond the text is translated to a span that ends at the UTF-16 length of
  the whole text.
\<close>

theorem adjust_beyond_text_is_clamped:
  assumes "scalar_text txt" and "spans_from_zero entities" and "some_span_beyond txt entities"
  shows "\<exists>out. adjust_message_entities_to_utf_16 txt entities = Inr out \<and>
           length out = length entities \<and>
           (\<forall>i < length entities.
              int (length txt) < offset (entities ! i) + length_me (entities ! i) \<longrightarrow>
              offset (out ! i) + length_me (out ! i) = int (utf16_length txt))"
proof -
  let ?out = "map (reposition (utf16_prefix_length txt)) entities"
  have nonneg: "\<forall>e \<in> set entities. 0 \<le> offset e \<and> 0 \<le> offset e + length_me e"
    using assms(2) by (auto simp: spans_from_zero_def list_all_iff)
  have out: "adjust_message_entities_to_utf_16 txt entities = Inr ?out"
    by (rule adjust_nonneg_positions(2) [OF scalar_text_no_surrogates [OF assms(1)] nonneg])
  have "offset (?out ! i) + length_me (?out ! i) = int (utf16_length txt)"
    if "i < length entities"
      and "int (length txt) < offset (entities ! i) + length_me (entities ! i)" for i
    using that by (simp add: reposition_def utf16_prefix_length_beyond)
  with out show ?thesis by simp
qed

theorem adjust_beyond_text_is_clamped_witness:
  "scalar_text [0x1F600, 97] \<and> spans_from_zero [span ''bold'' 1 7] \<and>
   some_span_beyond [0x1F600, 97] [span ''bold'' 1 7] \<and>
   adjust_message_entities_to_utf_16 [0x1F600, 97] [span ''bold'' 1 7] = Inr [span ''bold'' 2 1]"
proof -
  have a: "scalar_text [0x1F600, 97]"
    by (simp add: scalar_text_def is_scalar_value_def is_surrogate_def)
  have b: "spans_from_zero [span ''bold'' 1 7]"
    by (simp add: spans_from_zero_def span_def MessageEntity_init_def)
  have c: "some_span_beyond [0x1F600, 97] [span ''bold'' 1 7]"
    by (simp add: some_span_beyond_def span_def MessageEntity_init_def)
  from adjust_beyond_text_is_clamped [OF a b c] a b c show ?thesis
    by (simp add: eval_simps)
qed

text \<open>
  C2, the claim as stated fails: on the text \<open>"a"\<close> the span \<open>(0, 5)\<close> ends beyond the
  text, and the function returns the span \<open>(0, 1)\<close>.
\<close>

theorem adjust_beyond_text_returns_counterexample:
  "some_span_beyond [97] [span ''bold'' 0 5] \<and>
   adjust_message_entities_to_utf_16 [97] [span ''bold'' 0 5] = Inr [span ''bold'' 0 1]"
  by (simp add: eval_simps some_span_beyond_def)

text \<open>
  C5.  The example of the docstring: the spans \<open>(2, 4)\<close>, \<open>(9, 6)\<close>, \<open>(28, 3)\<close> over the
  example text become \<open>(3, 4)\<close>, \<open>(11, 6)\<close>, \<open>(30, 6)\<close>, in that order and with their types.
\<close>

theorem adjust_docstring_example:
  "adjust_message_entities_to_utf_16 example_text
     [span ''bold'' 2 4, span ''italic'' 9 6, span ''underline'' 28 3] =
   Inr [span ''bold'' 3 4, span ''italic'' 11 6, span ''underline'' 30 6]"
  by (simp add: eval_simps example_text_def)

text \<open>
  C6.  On a text of scalar values that all lie in the Basic Multilingual Plane, spans
  within the text are returned with their offsets and lengths unchanged: the result is
  the list of the shallow copies of the input spans.
\<close>

theorem adjust_identity_on_bmp:
  assumes "scalar_text txt" and "bmp_text txt" and "spans_within txt entities"
  shows "\<exists>out. adjust_message_entities_to_utf_16 txt entities = Inr out \<and>
           out = map copy_copy entities \<and> length out = length entities \<and>
           (\<forall>i < length entities.
              offset (out ! i) = offset (entities ! i) \<and>
              length_me (out ! i) = length_me (entities ! i))"
proof -
  have "reposition (utf16_prefix_length txt) e = copy_copy e" if "e \<in> set entities" for e
  proof -
    from that assms(3) have "0 \<le> offset e" "0 \<le> length_me e"
      "offset e + length_me e \<le> int (length txt)"
      by (auto simp: spans_within_def list_all_iff)
    then show ?thesis
      by (intro reposition_fixed) (simp_all add: utf16_prefix_length_bmp [OF assms(2)])
  qed
  then have "map (reposition (utf16_prefix_length txt)) entities = map copy_copy entities"
    by simp
  with adjust_within [OF assms(1,3)] show ?thesis by simp
qed

theorem adjust_identity_on_bmp_witness:
  "scalar_text [72, 0x20AC, 33] \<and> bmp_text [72, 0x20AC, 33] \<and>
   spans_within [72, 0x20AC, 33] [span ''bold'' 0 2, span ''italic'' 1 2] \<and>
   adjust_message_entities_to_utf_16 [72, 0x20AC, 33] [span ''bold'' 0 2, span ''italic'' 1 2] =
     Inr [span ''bold'' 0 2, span ''italic'' 1 2]"
proof -
  have a: "scalar_text [72, 0x20AC, 33]"
    by (simp add: scalar_text_def is_scalar_value_def is_surrogate_def)
  have b: "bmp_text [72, 0x20AC, 33]"
    by (simp add: bmp_text_def in_bmp_def)
  have c: "spans_within [72, 0x20AC, 33] [span ''bold'' 0 2, span ''italic'' 1 2]"
    by (simp add: spans_within_def span_def MessageEntity_init_def)
  have copies: "map copy_copy [span ''bold'' 0 2, span ''italic'' 1 2] =
                [span ''bold'' 0 2, span ''italic'' 1 2]"
    by (simp add: copy_copy_no_api_kwargs span_def MessageEntity_init_def)
  from adjust_identity_on_bmp [OF a b c]
  have "adjust_message_entities_to_utf_16 [72, 0x20AC, 33]
          [span ''bold'' 0 2, span ''italic'' 1 2] =
        Inr (map copy_copy [span ''bold'' 0 2, span ''italic'' 1 2])"
    by blast
  with copies a b c show ?thesis by simp
qed





text \<open>
  C10.  For a text of Unicode scalar values and spans within the text, no translated offset
  is smaller than the original offset, no translated length is smaller than the original
  length, and the dictionary \<open>position_translation\<close> is monotone on its keys.
\<close>

theorem adjust_widens_and_is_monotone:
  assumes "scalar_text txt" and "spans_within txt entities"
  shows "\<exists>pt out. position_translation_of txt entities = Inr pt \<and>
           adjust_message_entities_to_utf_16 txt entities = Inr out \<and>
           length out = length entities \<and>
           (\<forall>i < length entities.
              offset (entities ! i) \<le> offset (out ! i) \<and>
              length_me (entities ! i) \<le> length_me (out ! i)) \<and>
           (\<forall>p q v w. pt p = Some v \<and> pt q = Some w \<and> p \<le> q \<longrightarrow> v \<le> w)"
proof -
  let ?pt = "\<lambda>k. if k \<in> set (positions_of entities)
                   then Some (utf16_prefix_length txt k) else None"
  let ?out = "map (reposition (utf16_prefix_length txt)) entities"
  have nonneg: "\<forall>e \<in> set entities. 0 \<le> offset e \<and> 0 \<le> offset e + length_me e"
    using assms(2) by (auto simp: spans_within_def list_all_iff)
  have pt: "position_translation_of txt entities = Inr ?pt"
    by (rule adjust_nonneg_positions(1) [OF scalar_text_no_surrogates [OF assms(1)] nonneg])
  have out: "adjust_message_entities_to_utf_16 txt entities = Inr ?out"
    by (rule adjust_within [OF assms])
  have wider: "offset (entities ! i) \<le> offset (?out ! i) \<and>
               length_me (entities ! i) \<le> length_me (?out ! i)"
    if "i < length entities" for i
  proof -
    let ?e = "entities ! i"
    from that assms(2) have r: "0 \<le> offset ?e" "0 \<le> length_me ?e"
      "offset ?e + length_me ?e \<le> int (length txt)"
      by (auto simp: spans_within_def list_all_iff dest: nth_mem)
    have "length (take (nat (offset ?e)) txt) \<le> utf16_length (take (nat (offset ?e)) txt)"
      by (rule utf16_length_ge)
    with r have 1: "offset ?e \<le> utf16_prefix_length txt (offset ?e)"
      by (simp add: utf16_prefix_length_def)
    have "length (take (nat (length_me ?e)) (drop (nat (offset ?e)) txt))
          \<le> utf16_length (take (nat (length_me ?e)) (drop (nat (offset ?e)) txt))"
      by (rule utf16_length_ge)
    with r have 2: "length_me ?e \<le> utf16_prefix_length txt (offset ?e + length_me ?e)
                       - utf16_prefix_length txt (offset ?e)"
      by (simp add: utf16_prefix_length_span)
    from 1 2 that show ?thesis by (simp add: reposition_def)
  qed
  have mono: "v \<le> w" if "?pt p = Some v" "?pt q = Some w" "p \<le> q" for p q v w
  proof -
    from that(1) have p: "p \<in> set (positions_of entities)" "v = utf16_prefix_length txt p"
      by (auto split: if_splits)
    from that(2) have q: "w = utf16_prefix_length txt q"
      by (auto split: if_splits)
    from p(1) nonneg have "0 \<le> p" by (auto simp: set_positions_of)
    then show ?thesis using p(2) q that(3) by (simp add: utf16_prefix_length_mono)
  qed
  show ?thesis
    apply (rule exI [of _ ?pt], rule exI [of _ ?out])
    apply (intro conjI)
    apply (rule pt)
    apply (rule out)
    apply simp
    using wider apply blast
    using mono apply blast
    done
qed

theorem adjust_widens_and_is_monotone_witness:
  "scalar_text [0x1F600, 97, 98] \<and> spans_within [0x1F600, 97, 98] [span ''bold'' 0 2] \<and>
   position_translation_of [0x1F600, 97, 98] [span ''bold'' 0 2] = Inr [0 \<mapsto> 0, 2 \<mapsto> 3] \<and>
   adjust_message_entities_to_utf_16 [0x1F600, 97, 98] [span ''bold'' 0 2] =
     Inr [span ''bold'' 0 3]"
proof -
  have a: "scalar_text [0x1F600, 97, 98]"
    by (simp add: scalar_text_def is_scalar_value_def is_surrogate_def)
  have b: "spans_within [0x1F600, 97, 98] [span ''bold'' 0 2]"
    by (simp add: spans_within_def span_def MessageEntity_init_def)
  from adjust_widens_and_is_monotone [OF a b] a b show ?thesis
    by (simp add: eval_simps)
qed


section \<open>Paid media: auxiliary facts\<close>

lemmas init_simps = PaidMediaPreview_init_def PaidMediaPhoto_init_def PaidMediaVideo_init_def
  PaidMedia_init_def TelegramObject_init_def get_member_def
  PaidMedia.defs TelegramObject.defs PaidMediaPreview.defs PaidMediaPhoto.defs
  PaidMediaVideo.defs Let_def

lemmas decode_simps = TelegramObject_de_json_def parse_data_def in_class_mapping_def
  unexpected_kwargs_def optional_arg_def PaidMediaType_of_value_def PaidMediaType_members_def
  repeated_keyword_def first_rejected_def

lemma delete_keeps_other_key:
  "k \<noteq> k' \<Longrightarrow> map_of (AList.delete k d) k' = map_of d k'"
  by (simp add: delete_conv')

lemma plain_keys_no_repeated_keyword:
  "plain_keys d \<Longrightarrow> \<not> repeated_keyword cls d"
  by (auto simp: plain_keys_def repeated_keyword_def first_rejected_def find_Some_iff)

lemma plain_keys_delete:
  "plain_keys d \<Longrightarrow> plain_keys (AList.delete k d)"
  by (auto simp: plain_keys_def delete_keys)

lemma plain_keys_update:
  "k \<noteq> ''api_kwargs'' \<Longrightarrow> k \<noteq> ''self'' \<Longrightarrow> plain_keys d \<Longrightarrow>
   plain_keys (AList.update k v d)"
  by (auto simp: plain_keys_def update_keys)

lemma decode_photo:
  assumes "map_of d ''type'' = Some (J (JStr ''photo''))"
    and "map_of d ''photo'' = Some v"
    and "dl (Some v) = Inr sizes"
    and "plain_keys d"
  shows "PaidMedia_de_json dl vj PaidMedia (Some d) =
           Inr (Some (Obj_PaidMediaPhoto
             \<lparr>api_kwargs = unexpected_kwargs PaidMediaPhoto
                             (AList.update ''photo'' (Tuple (map PhotoSizeObj sizes))
                                (AList.delete ''type'' d)),
              id_attrs = [Member PHOTO, Tuple (map PhotoSizeObj sizes)],
              type_pm = Member PHOTO,
              photo = map PhotoSizeObj sizes\<rparr>))"
proof -
  let ?d' = "AList.delete ''type'' d"
  let ?d'' = "AList.update ''photo'' (Tuple (map PhotoSizeObj sizes)) ?d'"
  from assms(1) have nonempty: "d \<noteq> []" by auto
  have photo': "map_of ?d' ''photo'' = Some v"
    using assms(2) by (simp add: delete_keeps_other_key)
  have nonempty': "?d' \<noteq> []"
  proof
    assume "?d' = []"
    with photo' show False by simp
  qed
  have member: "in_class_mapping (map_of d ''type'') = Inr (Some PHOTO)"
    using assms(1) by (simp add: decode_simps)
  have outer: "PaidMedia_de_json dl vj PaidMedia (Some d) = PaidMediaPhoto_de_json dl vj (Some ?d')"
    using nonempty member by (simp add: parse_data_def)
  have inner: "PaidMediaPhoto_de_json dl vj (Some ?d') =
               PaidMedia_de_json dl vj PaidMediaPhoto (Some ?d'')"
    using nonempty' photo' assms(3) by (simp add: parse_data_def)
  have "\<not> repeated_keyword PaidMediaPhoto ?d''"
    using assms(4) by (simp add: plain_keys_no_repeated_keyword plain_keys_update plain_keys_delete)
  moreover have "map_of ?d'' ''photo'' = Some (Tuple (map PhotoSizeObj sizes))"
    by (simp add: update_conv')
  ultimately have "PaidMedia_de_json dl vj PaidMediaPhoto (Some ?d'') =
        Inr (Some (Obj_PaidMediaPhoto
             \<lparr>api_kwargs = unexpected_kwargs PaidMediaPhoto ?d'',
              id_attrs = [Member PHOTO, Tuple (map PhotoSizeObj sizes)],
              type_pm = Member PHOTO,
              photo = map PhotoSizeObj sizes\<rparr>))"
    by (simp add: parse_data_def TelegramObject_de_json_def init_simps)
  with outer inner show ?thesis by simp
qed

lemma PaidMediaPhoto_init_type:
  "PaidMediaPhoto_init p kw = Inr self \<Longrightarrow> type_pm self = Member PHOTO"
  by (auto simp: init_simps split: sum.splits)

lemma call_constructor_type:
  "call_constructor cls d = Inr self \<Longrightarrow> variant_type_ok self"
  by (cases cls)
     (auto simp: init_simps split: option.splits sum.splits dest: PaidMediaPhoto_init_type)

lemma TelegramObject_de_json_type:
  "TelegramObject_de_json cls data = Inr (Some self) \<Longrightarrow> variant_type_ok self"
  by (auto simp: TelegramObject_de_json_def split: option.splits sum.splits if_splits
           dest: call_constructor_type)

lemma de_json_type:
  "PaidMedia_de_json dl vj cls data = Inr (Some self) \<longrightarrow> variant_type_ok self"
  "PaidMediaPhoto_de_json dl vj data2 = Inr (Some self) \<longrightarrow> variant_type_ok self"
  "PaidMediaVideo_de_json dl vj data3 = Inr (Some self) \<longrightarrow> variant_type_ok self"
proof (induction dl vj cls data and dl vj data2 and dl vj data3
       rule: PaidMedia_de_json_PaidMediaPhoto_de_json_PaidMediaVideo_de_json.induct)
  case (1 dl vj cls data)
  show ?case
  proof
    assume run: "PaidMedia_de_json dl vj cls data = Inr (Some self)"
    show "variant_type_ok self"
    proof (cases data)
      case None
      with run show ?thesis by (simp add: parse_data_def)
    next
      case (Some d)
      note pd = Some
      show ?thesis
      proof (cases "cls = PaidMedia")
        case False
        with run pd show ?thesis
          by (simp add: parse_data_def TelegramObject_de_json_type)
      next
        case True
        show ?thesis
        proof (cases "d = []")
          case True
          with run pd \<open>cls = PaidMedia\<close> show ?thesis by (simp add: parse_data_def)
        next
          case False
          show ?thesis
          proof (cases "in_class_mapping (map_of d ''type'')")
            case (Inl e)
            with run pd True False show ?thesis by (simp add: parse_data_def)
          next
            case (Inr r)
            show ?thesis
            proof (cases r)
              case None
              with run pd True False Inr show ?thesis
                by (simp add: parse_data_def TelegramObject_de_json_type)
            next
              case (Some m)
              have p: "parse_data data = Some d" using pd by (simp add: parse_data_def)
              note ih = "1.IH" [OF p _ _ Inr Some refl]
              from run pd True False Inr Some show ?thesis
                using ih by (cases m) (simp_all add: parse_data_def Let_def)
            qed
          qed
        qed
      qed
    qed
  qed
next
  case (2 dl vj data)
  show ?case
  proof
    assume run: "PaidMediaPhoto_de_json dl vj data = Inr (Some self)"
    show "variant_type_ok self"
    proof (cases data)
      case None
      with run show ?thesis by (simp add: parse_data_def)
    next
      case (Some d)
      have p: "parse_data data = Some d" using Some by (simp add: parse_data_def)
      show ?thesis
      proof (cases "d = []")
        case True
        with run Some show ?thesis by (simp add: parse_data_def)
      next
        case False
        show ?thesis
        proof (cases "dl (map_of d ''photo'')")
          case (Inl e)
          with run Some False show ?thesis by (simp add: parse_data_def)
        next
          case (Inr sizes)
          from "2.IH" [OF p False Inr] run Some False Inr show ?thesis
            by (simp add: parse_data_def)
        qed
      qed
    qed
  qed
next
  case (3 dl vj data)
  show ?case
  proof
    assume run: "PaidMediaVideo_de_json dl vj data = Inr (Some self)"
    show "variant_type_ok self"
    proof (cases data)
      case None
      with run show ?thesis by (simp add: parse_data_def)
    next
      case (Some d)
      have p: "parse_data data = Some d" using Some by (simp add: parse_data_def)
      show ?thesis
      proof (cases "d = []")
        case True
        with run Some show ?thesis by (simp add: parse_data_def)
      next
        case False
        show ?thesis
        proof (cases "vj (map_of d ''video'')")
          case (Inl e)
          with run Some False show ?thesis by (simp add: parse_data_def)
        next
          case (Inr v)
          from "3.IH" [OF p False Inr] run Some False Inr show ?thesis
            by (simp add: parse_data_def)
        qed
      qed
    qed
  qed
qed


section \<open>Paid media: claims\<close>

text \<open>
  C3.  The claim is that every decoder returns null for a null and for an empty mapping.
  For a null mapping all four do.  For an empty mapping \<open>PaidMedia\<close>, \<open>PaidMediaPhoto\<close> and
  \<open>PaidMediaVideo\<close> return null, but \<open>PaidMediaPreview\<close> does not: the test for emptiness in
  \<open>PaidMedia.de_json\<close> applies only when \<open>cls is PaidMedia\<close>, so the empty mapping is handed
  to the constructor and the result is a \<open>PaidMediaPreview\<close> whose width, height and
  duration are \<open>None\<close>.
\<close>

theorem null_and_empty_decoding:
  "PaidMedia_de_json dl vj PaidMedia None = Inr None \<and>
   PaidMedia_de_json dl vj PaidMediaPreview None = Inr None \<and>
   PaidMediaPhoto_de_json dl vj None = Inr None \<and>
   PaidMediaVideo_de_json dl vj None = Inr None \<and>
   PaidMedia_de_json dl vj PaidMedia (Some []) = Inr None \<and>
   PaidMediaPhoto_de_json dl vj (Some []) = Inr None \<and>
   PaidMediaVideo_de_json dl vj (Some []) = Inr None \<and>
   PaidMedia_de_json dl vj PaidMediaPreview (Some []) =
     Inr (Some (Obj_PaidMediaPreview (PaidMediaPreview_init (J JNull) (J JNull) (J JNull) (Some []))))"
  by (simp add: decode_simps)

text \<open>
  C3, the claim as stated fails: \<open>PaidMediaPreview.de_json({})\<close> is an object, not null.
\<close>

theorem preview_empty_mapping_counterexample:
  "PaidMedia_de_json example_de_list example_de_json PaidMediaPreview (Some []) =
     Inr (Some (Obj_PaidMediaPreview
       \<lparr>api_kwargs = [], id_attrs = [Member PREVIEW, J JNull, J JNull, J JNull],
        type_pm = Member PREVIEW, width = J JNull, height = J JNull, duration = J JNull\<rparr>))"
  by (simp add: decode_simps init_simps)

text \<open>
  C4.  The claim is that \<open>PaidMedia.de_json\<close> never raises on a mapping with an
  unrecognized \<open>"type"\<close>.  It does when the mapping has an entry named \<open>api_kwargs\<close> or
  \<open>self\<close>, which the constructor call cannot take from the mapping.  What holds instead: a
  mapping with no such entry whose \<open>"type"\<close> entry is a string other than \<open>"preview"\<close>,
  \<open>"photo"\<close> and \<open>"video"\<close> is decoded without an error to an instance of the base class
  \<open>PaidMedia\<close> whose \<open>type\<close> is that string.
\<close>

theorem unknown_type_falls_back_to_base:
  assumes "map_of d ''type'' = Some (J (JStr s))"
    and "s \<noteq> ''preview''" and "s \<noteq> ''photo''" and "s \<noteq> ''video''"
    and "plain_keys d"
  shows "\<exists>self. PaidMedia_de_json dl vj PaidMedia (Some d) = Inr (Some (Obj_PaidMedia self)) \<and>
           type_pm self = J (JStr s) \<and> str_of (type_pm self) = Some s"
proof -
  from assms(1) have "d \<noteq> []" by auto
  moreover have "as_member (J (JStr s) :: ('a, 'b) pyval) = None"
    using assms(2-4) by (simp add: PaidMediaType_of_value_def PaidMediaType_members_def)
  ultimately show ?thesis
    using assms(1) plain_keys_no_repeated_keyword [OF assms(5), of PaidMedia]
    by (simp add: TelegramObject_de_json_def parse_data_def in_class_mapping_def init_simps)
qed

theorem unknown_type_falls_back_to_base_witness:
  "PaidMedia_de_json example_de_list example_de_json PaidMedia
     (Some [(''type'', J (JStr ''sticker_unknown_future_type''))]) =
   Inr (Some (Obj_PaidMedia
     \<lparr>api_kwargs = [], id_attrs = [J (JStr ''sticker_unknown_future_type'')],
      type_pm = J (JStr ''sticker_unknown_future_type'')\<rparr>))"
proof -
  let ?d = "[(''type'', J (JStr ''sticker_unknown_future_type'') :: (json, json) pyval)]"
  have a: "map_of ?d ''type'' = Some (J (JStr ''sticker_unknown_future_type''))"
    by simp
  have b: "plain_keys ?d"
    by (simp add: plain_keys_def)
  from unknown_type_falls_back_to_base [OF a _ _ _ b, of example_de_list example_de_json]
  show ?thesis
    by (simp add: decode_simps init_simps)
qed

text \<open>
  C4, the claim as stated fails: the mapping
  \<open>{"type": "sticker_unknown_future_type", "api_kwargs": {}}\<close> makes the decoder raise
  \<open>TypeError\<close>, and so does an entry named \<open>self\<close> in its place.
\<close>

theorem unknown_type_with_api_kwargs_counterexample:
  "PaidMedia_de_json example_de_list example_de_json PaidMedia
     (Some [(''type'', J (JStr ''sticker_unknown_future_type'')),
            (''api_kwargs'', J (JObject []))]) = Inl TypeError \<and>
   PaidMedia_de_json example_de_list example_de_json PaidMedia
     (Some [(''type'', J (JStr ''sticker_unknown_future_type'')),
            (''self'', J (JInt 1))]) = Inl TypeError"
  by (simp add: decode_simps)

text \<open>
  C8.  A mapping with \<open>"type": "photo"\<close> and a \<open>"photo"\<close> entry that \<open>PhotoSize.de_list\<close>
  decodes, and with no entry named \<open>api_kwargs\<close> or \<open>self\<close>, is decoded by \<open>PaidMedia.de_json\<close> to a \<open>PaidMediaPhoto\<close> whose \<open>photo\<close> is the
  tuple of the decoded objects, in order; and two such instances are equal exactly when
  their \<open>type\<close> and their \<open>photo\<close> are equal.
\<close>

theorem photo_mapping_decodes_to_photo_variant:
  assumes "map_of d1 ''type'' = Some (J (JStr ''photo''))"
    and "map_of d1 ''photo'' = Some v1" and "dl (Some v1) = Inr sizes1"
    and "plain_keys d1"
    and "map_of d2 ''type'' = Some (J (JStr ''photo''))"
    and "map_of d2 ''photo'' = Some v2" and "dl (Some v2) = Inr sizes2"
    and "plain_keys d2"
  shows "\<exists>a b. PaidMedia_de_json dl vj PaidMedia (Some d1) = Inr (Some (Obj_PaidMediaPhoto a)) \<and>
           PaidMedia_de_json dl vj PaidMedia (Some d2) = Inr (Some (Obj_PaidMediaPhoto b)) \<and>
           photo a = map PhotoSizeObj sizes1 \<and> photo b = map PhotoSizeObj sizes2 \<and>
           str_of (type_pm a) = Some ''photo'' \<and> str_of (type_pm b) = Some ''photo'' \<and>
           TelegramObject_eq eq (Obj_PaidMediaPhoto a) (Obj_PaidMediaPhoto b) =
             Eq (eq (type_pm a) (type_pm b) \<and> eq (Tuple (photo a)) (Tuple (photo b)))"
proof -
  note first = decode_photo [where d = d1 and v = v1 and dl = dl and sizes = sizes1 and vj = vj,
      OF assms(1-4)]
  note second = decode_photo [where d = d2 and v = v2 and dl = dl and sizes = sizes2 and vj = vj,
      OF assms(5-8)]
  show ?thesis
    unfolding first second by (simp add: TelegramObject_eq_def isinstance_def)
qed

theorem photo_mapping_decodes_to_photo_variant_witness:
  "PaidMedia_de_json example_de_list example_de_json PaidMedia
     (Some [(''type'', J (JStr ''photo'')),
            (''photo'', J (JList [JObject [(''file_id'', JStr ''a'')],
                                 JObject [(''file_id'', JStr ''b'')]]))]) =
   Inr (Some (Obj_PaidMediaPhoto
     \<lparr>api_kwargs = [],
      id_attrs = [Member PHOTO, Tuple [PhotoSizeObj (JObject [(''file_id'', JStr ''a'')]),
                                      PhotoSizeObj (JObject [(''file_id'', JStr ''b'')])]],
      type_pm = Member PHOTO,
      photo = [PhotoSizeObj (JObject [(''file_id'', JStr ''a'')]),
               PhotoSizeObj (JObject [(''file_id'', JStr ''b'')])]\<rparr>))"
proof -
  let ?v = "J (JList [JObject [(''file_id'', JStr ''a'')], JObject [(''file_id'', JStr ''b'')]])
            :: (json, json) pyval"
  let ?d = "[(''type'', J (JStr ''photo'')), (''photo'', ?v)]"
  have a: "map_of ?d ''type'' = Some (J (JStr ''photo''))" by simp
  have b: "map_of ?d ''photo'' = Some ?v" by simp
  have c: "example_de_list (Some ?v) =
           Inr [JObject [(''file_id'', JStr ''a'')], JObject [(''file_id'', JStr ''b'')]]"
    by (simp add: example_de_list_def)
  have d: "plain_keys ?d"
    by (simp add: plain_keys_def)
  from photo_mapping_decodes_to_photo_variant [where dl = example_de_list and vj = example_de_json
      and eq = "(=)", OF a b c d a b c d]
  show ?thesis
    by (simp add: decode_simps init_simps example_de_list_def AList.update.simps AList.delete_eq)
qed

text \<open>
  C9.  The \<open>type\<close> of every instance that a constructor of a concrete variant builds is the
  discriminator of that variant, whatever the arguments; and so is the \<open>type\<close> of every
  instance of a concrete variant that a decoder returns, whatever \<open>"type"\<close> the mapping
  carries.
\<close>

theorem variant_type_is_fixed:
  "str_of (type_pm (PaidMediaPreview_init w h du kw1)) = Some ''preview'' \<and>
   (\<forall>self. PaidMediaPhoto_init p kw2 = Inr self \<longrightarrow> str_of (type_pm self) = Some ''photo'') \<and>
   str_of (type_pm (PaidMediaVideo_init v kw3)) = Some ''video'' \<and>
   (\<forall>self. PaidMedia_de_json dl vj cls data = Inr (Some self) \<longrightarrow> variant_type_ok self) \<and>
   (\<forall>self. PaidMediaPhoto_de_json dl vj data = Inr (Some self) \<longrightarrow> variant_type_ok self) \<and>
   (\<forall>self. PaidMediaVideo_de_json dl vj data = Inr (Some self) \<longrightarrow> variant_type_ok self)"
proof (intro conjI allI)
  show "str_of (type_pm (PaidMediaPreview_init w h du kw1)) = Some ''preview''"
    by (simp add: init_simps)
  show "PaidMediaPhoto_init p kw2 = Inr self \<longrightarrow> str_of (type_pm self) = Some ''photo''" for self
    by (auto dest: PaidMediaPhoto_init_type)
  show "str_of (type_pm (PaidMediaVideo_init v kw3)) = Some ''video''"
    by (simp add: init_simps)
  show "PaidMedia_de_json dl vj cls data = Inr (Some self) \<longrightarrow> variant_type_ok self" for self
    by (rule de_json_type(1))
  show "PaidMediaPhoto_de_json dl vj data = Inr (Some self) \<longrightarrow> variant_type_ok self" for self
    by (rule de_json_type(2))
  show "PaidMediaVideo_de_json dl vj data = Inr (Some self) \<longrightarrow> variant_type_ok self" for self
    by (rule de_json_type(3))
qed

theorem variant_type_is_fixed_witness:
  "PaidMediaPhoto_init (Tuple [PhotoSizeObj (JStr ''s'')]) None =
     Inr \<lparr>api_kwargs = [], id_attrs = [Member PHOTO, Tuple [PhotoSizeObj (JStr ''s'')]],
          type_pm = Member PHOTO, photo = [PhotoSizeObj (JStr ''s'') :: (json, json) pyval]\<rparr> \<and>
   PaidMediaPhoto_de_json example_de_list example_de_json
     (Some [(''type'', J (JStr ''video'')), (''photo'', J (JList [JStr ''s'']))]) =
     Inr (Some (Obj_PaidMediaPhoto
       \<lparr>api_kwargs = [(''type'', J (JStr ''video''))],
        id_attrs = [Member PHOTO, Tuple [PhotoSizeObj (JStr ''s'')]],
        type_pm = Member PHOTO, photo = [PhotoSizeObj (JStr ''s'')]\<rparr>)) \<and>
   variant_type_ok (Obj_PaidMediaPhoto
       \<lparr>api_kwargs = [(''type'', J (JStr ''video'') :: (json, json) pyval)],
        id_attrs = [Member PHOTO, Tuple [PhotoSizeObj (JStr ''s'')]],
        type_pm = Member PHOTO, photo = [PhotoSizeObj (JStr ''s'')]\<rparr>)"
proof -
  let ?d = "[(''type'', J (JStr ''video'')), (''photo'', J (JList [JStr ''s'']))]
            :: (json, json) JSONDict"
  have run: "PaidMediaPhoto_de_json example_de_list example_de_json (Some ?d) =
     Inr (Some (Obj_PaidMediaPhoto
       \<lparr>api_kwargs = [(''type'', J (JStr ''video''))],
        id_attrs = [Member PHOTO, Tuple [PhotoSizeObj (JStr ''s'')]],
        type_pm = Member PHOTO, photo = [PhotoSizeObj (JStr ''s'')]\<rparr>))"
    by (simp add: decode_simps init_simps example_de_list_def)
  from variant_type_is_fixed [where dl = example_de_list and vj = example_de_json
      and data = "Some ?d" and p = "Tuple [PhotoSizeObj (JStr ''s'')]" and ?kw2.0 = None]
    run
  show ?thesis
    by (simp add: init_simps)
qed


end
